theory Spec2Isabelle
  imports
    Complex_Main
    "HOL-Library.Sublist"
    "HOL-Library.Char_ord"
    "HOL-Library.List_Lexorder"
    "HOL-Library.Multiset"
begin

section \<open>Data model of the deals table\<close>

text \<open>
  The component \<^verbatim>\<open>DealsTable\<close> of \<^verbatim>\<open>deals-table.tsx\<close> keeps three pieces of
  state: the record list \<^verbatim>\<open>tableData\<close>, the view state \<^verbatim>\<open>uiState\<close> and the
  announcement string. JavaScript strings are modelled as \<^typ>\<open>string\<close>, JavaScript
  numbers as \<^typ>\<open>real\<close> (the finite values; \<^verbatim>\<open>NaN\<close> and rounding are outside the
  model), objects used as dictionaries as partial maps. Field names are the source's,
  except where two records share one or a name is taken: \<^verbatim>\<open>id\<close> of a deal is
  \<open>deal_id\<close>, \<^verbatim>\<open>id\<close> of a column \<open>col_id\<close>, the filters \<^verbatim>\<open>stage\<close> and
  \<^verbatim>\<open>owner\<close> are \<open>stage_filter\<close> and \<open>owner_filter\<close>, and \<^verbatim>\<open>visible\<close> of the
  totals is \<open>visible_rows\<close>.
\<close>

record Deal =
  deal_id :: string
  deal :: string
  activitiesTimeline :: string
  stage :: string
  dealValue :: real
  contacts :: string
  owner :: string
  accounts :: string
  expectedClose :: string
  forecastValue :: real

definition mockData :: "Deal list" where
  "mockData =
    [\<lparr>deal_id = ''1'', deal = ''Enterprise Software License'', activitiesTimeline = '''',
      stage = ''Proposal'', dealValue = 125000, contacts = ''John Smith, Mary Johnson'',
      owner = ''Alex Chen'', accounts = ''TechCorp Inc. - Enterprise'',
      expectedClose = ''2024-03-15'', forecastValue = 112500\<rparr>,
     \<lparr>deal_id = ''2'', deal = ''Cloud Migration Project'', activitiesTimeline = '''',
      stage = ''Negotiation'', dealValue = 85000,
      contacts = ''Sarah Johnson, Mike Davis, Lisa Wong'',
      owner = ''Sam Wilson'', accounts = ''DataFlow Systems - Mid-Market'',
      expectedClose = ''2024-02-28'', forecastValue = 76500\<rparr>,
     \<lparr>deal_id = ''3'', deal = ''Marketing Automation Setup'', activitiesTimeline = '''',
      stage = ''Proposal'', dealValue = 45000, contacts = ''Mike Davis, Jennifer Lee'',
      owner = ''Emma Brown'', accounts = ''GrowthCo - Small Business'',
      expectedClose = ''2024-02-15'', forecastValue = 40500\<rparr>,
     \<lparr>deal_id = ''4'', deal = ''Security Audit & Compliance'', activitiesTimeline = '''',
      stage = ''Closed Won'', dealValue = 95000,
      contacts = ''Lisa Chen, Robert Kim, David Park'',
      owner = ''James Liu'', accounts = ''SecureBank - Financial Services'',
      expectedClose = ''2024-01-30'', forecastValue = 95000\<rparr>,
     \<lparr>deal_id = ''5'', deal = ''Custom Dashboard Development'', activitiesTimeline = '''',
      stage = ''Discovery'', dealValue = 65000, contacts = ''Tom Wilson, Anna Martinez'',
      owner = ''Chris Taylor'', accounts = ''Analytics Pro - Technology'',
      expectedClose = ''2024-03-30'', forecastValue = 58500\<rparr>]"

record ColumnConfig =
  col_id :: string
  label :: string
  visible :: bool
  locked :: "bool option"
  width :: "real option"

record FilterState =
  search :: string
  stage_filter :: "string list"
  owner_filter :: "string list"
  dealValueRange :: "real \<times> real"

datatype direction = Asc | Desc

record SortState =
  column :: string
  direction :: direction

record UIState =
  rowSelection :: "string \<rightharpoonup> bool"
  columnConfig :: "ColumnConfig list"
  headerValues :: "string \<rightharpoonup> string"
  selectedTemplates :: "string list"
  expandedRows :: "string list"
  filters :: FilterState
  sorts :: "SortState list"
  columnWidths :: "string \<rightharpoonup> real"

record AppState =
  tableData :: "Deal list"
  uiState :: UIState
  announcementMessage :: string

section \<open>Strings\<close>

text \<open>
  \<^verbatim>\<open>String.prototype.toLowerCase\<close> on the ASCII letters; every other character is
  left as it is.
\<close>

definition lower_char :: "char \<Rightarrow> char" where
  "lower_char c =
     (case map_of (zip ''ABCDEFGHIJKLMNOPQRSTUVWXYZ'' ''abcdefghijklmnopqrstuvwxyz'') c of
        Some l \<Rightarrow> l
      | None \<Rightarrow> c)"

definition toLowerCase :: "string \<Rightarrow> string" where
  "toLowerCase s = map lower_char s"

text \<open>
  \<^verbatim>\<open>s.includes(t)\<close>: the text \<open>t\<close> starts at some position of \<open>s\<close>.
\<close>

fun str_includes :: "string \<Rightarrow> string \<Rightarrow> bool" where
  "str_includes [] t = (t = [])"
| "str_includes (c # cs) t = (prefix t (c # cs) \<or> str_includes cs t)"

text \<open>
  A template literal renders a non-negative integer in decimal.
\<close>

definition digit_char :: "nat \<Rightarrow> char" where
  "digit_char d = ''0123456789'' ! d"

function show_nat :: "nat \<Rightarrow> string" where
  "show_nat n =
     (if n < 10 then [digit_char n] else show_nat (n div 10) @ [digit_char (n mod 10)])"
  by pat_completeness auto
termination
  by (relation "measure id") auto

declare show_nat.simps [simp del]

section \<open>The derived data: filter\<close>

text \<open>
  The callback handed to \<^verbatim>\<open>tableData.filter\<close> in \<^verbatim>\<open>filteredData\<close>: four guards,
  each of which returns \<^verbatim>\<open>false\<close> early, then \<^verbatim>\<open>true\<close>. A non-empty string is
  truthy, so \<^verbatim>\<open>if (filters.search)\<close> tests that the search text is not empty.
\<close>

definition deal_passes :: "FilterState \<Rightarrow> Deal \<Rightarrow> bool" where
  "deal_passes f d =
     (if search f \<noteq> [] \<and>
         \<not> list_ex (\<lambda>field. str_includes (toLowerCase field) (toLowerCase (search f)))
              [deal d, owner d, accounts d, contacts d]
      then False
      else if length (stage_filter f) > 0 \<and> stage d \<notin> set (stage_filter f)
      then False
      else if length (owner_filter f) > 0 \<and> owner d \<notin> set (owner_filter f)
      then False
      else if dealValue d < fst (dealValueRange f) \<or> dealValue d > snd (dealValueRange f)
      then False
      else True)"

definition filteredData :: "Deal list \<Rightarrow> FilterState \<Rightarrow> Deal list" where
  "filteredData td f = filter (deal_passes f) td"



definition range_only :: "real \<Rightarrow> real \<Rightarrow> FilterState" where
  "range_only lo hi =
     \<lparr>search = [], stage_filter = [], owner_filter = [], dealValueRange = (lo, hi)\<rparr>"


section \<open>The derived data: sort\<close>

text \<open>
  \<^verbatim>\<open>a[sort.column]\<close>: the property of a record named by a string; a name that is not a
  property of \<^verbatim>\<open>Deal\<close> reads as \<^verbatim>\<open>undefined\<close> (or as a property every object
  inherits, the same for both records: neither is below the other then, as with
  \<^verbatim>\<open>undefined\<close>).
\<close>

datatype jsval = Str string | Num real | Undefined

definition field :: "Deal \<Rightarrow> string \<Rightarrow> jsval" where
  "field d c =
     (if c = ''id'' then Str (deal_id d)
      else if c = ''deal'' then Str (deal d)
      else if c = ''activitiesTimeline'' then Str (activitiesTimeline d)
      else if c = ''stage'' then Str (stage d)
      else if c = ''dealValue'' then Num (dealValue d)
      else if c = ''contacts'' then Str (contacts d)
      else if c = ''owner'' then Str (owner d)
      else if c = ''accounts'' then Str (accounts d)
      else if c = ''expectedClose'' then Str (expectedClose d)
      else if c = ''forecastValue'' then Num (forecastValue d)
      else Undefined)"

text \<open>
  The relational operator \<^verbatim>\<open><\<close>: two strings compare by their character codes,
  lexicographically, two numbers by value, and \<^verbatim>\<open>undefined\<close> is below and above
  nothing. The comparator only ever compares the same property of two records, so a string
  never meets a number there; the last equation is not reached for such a pair.
\<close>

fun js_lt :: "jsval \<Rightarrow> jsval \<Rightarrow> bool" where
  "js_lt (Str x) (Str y) = (x < y)"
| "js_lt (Num x) (Num y) = (x < y)"
| "js_lt _ _ = False"

text \<open>
  \<^verbatim>\<open>if (typeof aVal === "string" && typeof bVal === "string")\<close>: both values are
  lower-cased, or neither.
\<close>

fun lower_both :: "jsval \<Rightarrow> jsval \<Rightarrow> jsval \<times> jsval" where
  "lower_both (Str x) (Str y) = (Str (toLowerCase x), Str (toLowerCase y))"
| "lower_both u v = (u, v)"

text \<open>
  The comparator handed to \<^verbatim>\<open>sort\<close>: the loop over the sort specification returns
  at the first key on which the two records differ, and 0 after the last key.
\<close>

fun compare_deals :: "SortState list \<Rightarrow> Deal \<Rightarrow> Deal \<Rightarrow> int" where
  "compare_deals [] a b = 0"
| "compare_deals (s # ss) a b =
     (case lower_both (field a (column s)) (field b (column s)) of
        (aVal, bVal) \<Rightarrow>
          if js_lt aVal bVal then (if direction s = Asc then - 1 else 1)
          else if js_lt bVal aVal then (if direction s = Asc then 1 else - 1)
          else compare_deals ss a b)"

text \<open>
  \<^verbatim>\<open>Array.prototype.sort\<close> belongs to the JavaScript runtime. The language standard
  requires it to be stable and, for a consistent comparator, to return the elements in
  the comparator's order; the model is the insertion sort that does this.
\<close>

fun insert_by :: "('a \<Rightarrow> 'a \<Rightarrow> int) \<Rightarrow> 'a \<Rightarrow> 'a list \<Rightarrow> 'a list" where
  "insert_by cmp x [] = [x]"
| "insert_by cmp x (y # ys) =
     (if cmp x y \<le> 0 then x # y # ys else y # insert_by cmp x ys)"

definition array_sort :: "('a \<Rightarrow> 'a \<Rightarrow> int) \<Rightarrow> 'a list \<Rightarrow> 'a list" where
  "array_sort cmp xs = foldr (insert_by cmp) xs []"

definition sortedData :: "Deal list \<Rightarrow> FilterState \<Rightarrow> SortState list \<Rightarrow> Deal list" where
  "sortedData td f ss =
     (if length ss = 0 then filteredData td f
      else array_sort (compare_deals ss) (filteredData td f))"

text \<open>
  The value a key sorts by, and the three outcomes of one key for two records.
\<close>

definition sort_value :: "Deal \<Rightarrow> string \<Rightarrow> jsval" where
  "sort_value d c = (case field d c of Str x \<Rightarrow> Str (toLowerCase x) | v \<Rightarrow> v)"

definition key_before :: "SortState \<Rightarrow> Deal \<Rightarrow> Deal \<Rightarrow> bool" where
  "key_before s a b =
     (if direction s = Asc then js_lt (sort_value a (column s)) (sort_value b (column s))
      else js_lt (sort_value b (column s)) (sort_value a (column s)))"

definition key_tie :: "SortState \<Rightarrow> Deal \<Rightarrow> Deal \<Rightarrow> bool" where
  "key_tie s a b = (\<not> key_before s a b \<and> \<not> key_before s b a)"

section \<open>The header click\<close>

definition handleSort :: "string \<Rightarrow> UIState \<Rightarrow> UIState" where
  "handleSort columnId prev =
     (let currentSorts = sorts prev;
          existingSort = find (\<lambda>s. column s = columnId) currentSorts;
          newSorts =
            (case existingSort of
               Some e \<Rightarrow>
                 if direction e = Asc
                 then map (\<lambda>s. if column s = columnId then s\<lparr>direction := Desc\<rparr> else s)
                        currentSorts
                 else filter (\<lambda>s. column s \<noteq> columnId) currentSorts
             | None \<Rightarrow> currentSorts @ [\<lparr>column = columnId, direction = Asc\<rparr>])
      in prev\<lparr>sorts := newSorts\<rparr>)"

section \<open>Selection\<close>

text \<open>
  An entry of the selection object is truthy when the key is present with \<^verbatim>\<open>true\<close>.
\<close>

definition is_selected :: "(string \<rightharpoonup> bool) \<Rightarrow> string \<Rightarrow> bool" where
  "is_selected sel rid = (sel rid = Some True)"

definition handleSelectRow :: "string \<Rightarrow> UIState \<Rightarrow> UIState" where
  "handleSelectRow rowId prev =
     prev\<lparr>rowSelection := (rowSelection prev)(rowId \<mapsto> \<not> is_selected (rowSelection prev) rowId)\<rparr>"

definition select_rows :: "Deal list \<Rightarrow> (string \<rightharpoonup> bool)" where
  "select_rows rows = foldl (\<lambda>acc row. acc(deal_id row \<mapsto> True)) Map.empty rows"

definition handleSelectAll :: "Deal list \<Rightarrow> UIState \<Rightarrow> UIState" where
  "handleSelectAll rows prev =
     (let currentSelection = rowSelection prev;
          allSelected = list_all (\<lambda>row. is_selected currentSelection (deal_id row)) rows
      in prev\<lparr>rowSelection := (if allSelected then Map.empty else select_rows rows)\<rparr>)"

text \<open>
  The two callbacks of the toolbar that change the filter criteria.
\<close>

definition onFiltersChange :: "FilterState \<Rightarrow> UIState \<Rightarrow> UIState" where
  "onFiltersChange newFilters prev = prev\<lparr>filters := newFilters\<rparr>"

definition onClearFilters :: "UIState \<Rightarrow> UIState" where
  "onClearFilters prev =
     prev\<lparr>filters := \<lparr>search = [], stage_filter = [], owner_filter = [],
                        dealValueRange = (0, 200000)\<rparr>\<rparr>"

section \<open>Bulk and row actions\<close>

datatype BulkAction = BulkDelete | BulkArchive | BulkChangeStage | BulkChangeOwner | BulkEmail

text \<open>
  \<^verbatim>\<open>`${n} deal${n !== 1 ? 's' : ''}`\<close>
\<close>

definition count_deals :: "nat \<Rightarrow> string" where
  "count_deals n = show_nat n @ '' deal'' @ (if n \<noteq> 1 then ''s'' else [])"

definition stageMap :: "(string \<times> string) list" where
  "stageMap =
     [(''discovery'', ''Discovery''), (''proposal'', ''Proposal''),
      (''negotiation'', ''Negotiation''), (''closed-won'', ''Closed Won''),
      (''closed-lost'', ''Closed Lost'')]"

definition ownerMap :: "(string \<times> string) list" where
  "ownerMap =
     [(''alex-chen'', ''Alex Chen''), (''sam-wilson'', ''Sam Wilson''),
      (''emma-brown'', ''Emma Brown''), (''james-liu'', ''James Liu''),
      (''chris-taylor'', ''Chris Taylor'')]"

definition mapped_or_raw :: "(string \<times> string) list \<Rightarrow> string \<Rightarrow> string" where
  "mapped_or_raw table v = (case map_of table v of Some x \<Rightarrow> x | None \<Rightarrow> v)"

text \<open>
  \<^verbatim>\<open>selectedRowIds = Object.keys(rowSelection)\<close> is every key of the selection
  object, whatever its value: the set \<open>dom\<close> of the map, its length the cardinality.
  An absent or empty \<^verbatim>\<open>value\<close> is falsy.
\<close>

definition handleBulkAction :: "BulkAction \<Rightarrow> string option \<Rightarrow> AppState \<Rightarrow> AppState" where
  "handleBulkAction action val st =
     (let selectedRowIds = dom (rowSelection (uiState st));
          n = card selectedRowIds
      in case action of
           BulkDelete \<Rightarrow>
             st\<lparr>tableData := filter (\<lambda>d. deal_id d \<notin> selectedRowIds) (tableData st),
                uiState := (uiState st)\<lparr>rowSelection := Map.empty\<rparr>,
                announcementMessage := ''Deleted '' @ count_deals n\<rparr>
         | BulkArchive \<Rightarrow> st\<lparr>announcementMessage := ''Archived '' @ count_deals n\<rparr>
         | BulkChangeStage \<Rightarrow>
             (case val of
                None \<Rightarrow> st
              | Some v \<Rightarrow>
                  if v = [] then st
                  else st\<lparr>tableData :=
                            map (\<lambda>d. if deal_id d \<in> selectedRowIds
                                      then d\<lparr>stage := mapped_or_raw stageMap v\<rparr> else d)
                              (tableData st),
                          announcementMessage :=
                            ''Changed '' @ count_deals n @ '' to '' @ mapped_or_raw stageMap v\<rparr>)
         | BulkChangeOwner \<Rightarrow>
             (case val of
                None \<Rightarrow> st
              | Some v \<Rightarrow>
                  if v = [] then st
                  else st\<lparr>tableData :=
                            map (\<lambda>d. if deal_id d \<in> selectedRowIds
                                      then d\<lparr>owner := mapped_or_raw ownerMap v\<rparr> else d)
                              (tableData st),
                          announcementMessage :=
                            ''Assigned '' @ count_deals n @ '' to '' @ mapped_or_raw ownerMap v\<rparr>)
         | BulkEmail \<Rightarrow>
             st\<lparr>announcementMessage := ''Preparing email for '' @ count_deals n\<rparr>)"

text \<open>
  The number of selected rows as the totals bar and the selection bar count it:
  \<^verbatim>\<open>Object.keys(rowSelection).filter((id) => rowSelection[id]).length\<close>.
\<close>

definition selected_count :: "(string \<rightharpoonup> bool) \<Rightarrow> nat" where
  "selected_count sel = card {rid \<in> dom sel. is_selected sel rid}"

datatype RowAction =
  Edit | Duplicate | ChangeOwner | ChangeStage | Email | Call | Meeting | Archive | Delete

text \<open>
  \<^verbatim>\<open>`${dealId}-copy-${Date.now()}`\<close>; the clock's reading, in milliseconds, is an
  argument of the model.
\<close>

definition copy_id :: "string \<Rightarrow> nat \<Rightarrow> string" where
  "copy_id dealId now = dealId @ ''-copy-'' @ show_nat now"

definition handleRowAction ::
  "RowAction \<Rightarrow> string \<Rightarrow> string option \<Rightarrow> nat \<Rightarrow> AppState \<Rightarrow> AppState" where
  "handleRowAction action dealId val now st =
     (case action of
        Edit \<Rightarrow> st\<lparr>announcementMessage := ''Editing deal''\<rparr>
      | Duplicate \<Rightarrow>
          (case find (\<lambda>d. deal_id d = dealId) (tableData st) of
             Some originalDeal \<Rightarrow>
               st\<lparr>tableData :=
                    tableData st @
                    [originalDeal\<lparr>deal_id := copy_id dealId now,
                                  deal := deal originalDeal @ '' (Copy)''\<rparr>],
                  announcementMessage := ''Deal duplicated successfully''\<rparr>
           | None \<Rightarrow> st)
      | ChangeOwner \<Rightarrow>
          (case val of
             None \<Rightarrow> st
           | Some v \<Rightarrow>
               if v = [] then st
               else st\<lparr>tableData :=
                         map (\<lambda>d. if deal_id d = dealId then d\<lparr>owner := v\<rparr> else d)
                           (tableData st),
                       announcementMessage := ''Deal owner changed to '' @ v\<rparr>)
      | ChangeStage \<Rightarrow>
          (case val of
             None \<Rightarrow> st
           | Some v \<Rightarrow>
               if v = [] then st
               else st\<lparr>tableData :=
                         map (\<lambda>d. if deal_id d = dealId then d\<lparr>stage := v\<rparr> else d)
                           (tableData st),
                       announcementMessage := ''Deal stage changed to '' @ v\<rparr>)
      | Email \<Rightarrow> st\<lparr>announcementMessage := ''Preparing email for deal''\<rparr>
      | Call \<Rightarrow> st\<lparr>announcementMessage := ''Scheduling call for deal''\<rparr>
      | Meeting \<Rightarrow> st\<lparr>announcementMessage := ''Scheduling meeting for deal''\<rparr>
      | Archive \<Rightarrow> st\<lparr>announcementMessage := ''Deal archived''\<rparr>
      | Delete \<Rightarrow>
          st\<lparr>tableData := filter (\<lambda>d. deal_id d \<noteq> dealId) (tableData st),
             announcementMessage := ''Deal deleted''\<rparr>)"

section \<open>Totals\<close>

record Totals =
  visible_rows :: nat
  total :: nat
  selected :: nat
  dealValueSum :: real
  forecastValueSum :: real
  stageBreakdown :: "string \<rightharpoonup> nat"
  ownerBreakdown :: "string \<rightharpoonup> nat"
  averageDealValue :: real
  conversionRate :: real

text \<open>
  \<^verbatim>\<open>acc[k] = (acc[k] || 0) + 1\<close>
\<close>

definition tally :: "(string \<rightharpoonup> nat) \<Rightarrow> string \<Rightarrow> (string \<rightharpoonup> nat)" where
  "tally acc k = acc(k \<mapsto> (case acc k of None \<Rightarrow> 0 | Some c \<Rightarrow> c) + 1)"

definition totals :: "Deal list \<Rightarrow> Deal list \<Rightarrow> (string \<rightharpoonup> bool) \<Rightarrow> Totals" where
  "totals rows td sel =
     (let visible = length rows;
          dvSum = foldl (\<lambda>sum d. sum + dealValue d) 0 rows;
          fvSum = foldl (\<lambda>sum d. sum + forecastValue d) 0 rows;
          stages = foldl (\<lambda>acc d. tally acc (stage d)) Map.empty rows;
          owners = foldl (\<lambda>acc d. tally acc (owner d)) Map.empty rows
      in \<lparr>visible_rows = visible,
          total = length td,
          selected = selected_count sel,
          dealValueSum = dvSum,
          forecastValueSum = fvSum,
          stageBreakdown = stages,
          ownerBreakdown = owners,
          averageDealValue = (if visible > 0 then dvSum / real visible else 0),
          conversionRate =
            (case stages ''Closed Won'' of
               None \<Rightarrow> 0
             | Some c \<Rightarrow> if c \<noteq> 0 then (real c / real visible) * 100 else 0)\<rparr>)"

section \<open>The initial view state\<close>

text \<open>
  The object literal the initializer of \<^verbatim>\<open>uiState\<close> returns when nothing is stored,
  as a typed view state.
\<close>

definition initial_view :: UIState where
  "initial_view =
     \<lparr>rowSelection = Map.empty, columnConfig = [], headerValues = Map.empty,
      selectedTemplates = [], expandedRows = [],
      filters = \<lparr>search = [], stage_filter = [], owner_filter = [],
                 dealValueRange = (0, 200000)\<rparr>,
      sorts = [], columnWidths = Map.empty\<rparr>"

definition initial_app :: AppState where
  "initial_app = \<lparr>tableData = mockData, uiState = initial_view, announcementMessage = []\<rparr>"

text \<open>
  What \<^verbatim>\<open>JSON.parse\<close> returns is not checked against \<^verbatim>\<open>UIState\<close>: the initializer
  hands it on as it is. So the state at startup is a JSON value, and the default literal
  is one too.
\<close>

datatype json =
  JNull | JBool bool | JNum real | JStr string | JArr "json list" | JObj "(string \<times> json) list"

definition default_ui_state :: json where
  "default_ui_state =
     JObj [(''rowSelection'', JObj []),
           (''columnConfig'', JArr []),
           (''headerValues'', JObj []),
           (''selectedTemplates'', JArr []),
           (''expandedRows'', JArr []),
           (''filters'',
              JObj [(''search'', JStr []), (''stage'', JArr []), (''owner'', JArr []),
                    (''dealValueRange'', JArr [JNum 0, JNum 200000])]),
           (''sorts'', JArr []),
           (''columnWidths'', JObj [])]"

text \<open>
  \<^verbatim>\<open>localStorage.getItem\<close> throws, or returns the stored text or \<^verbatim>\<open>null\<close>.
  \<^verbatim>\<open>JSON.parse\<close> is the runtime's: it is an argument of the model, a partial map
  that is undefined on the texts for which \<^verbatim>\<open>JSON.parse\<close> throws. Both calls stand
  in one \<^verbatim>\<open>try\<close> block whose handler only logs; an empty text is falsy.
\<close>

datatype storage_read = Throws | Returns "string option"

definition initial_uiState :: "bool \<Rightarrow> storage_read \<Rightarrow> (string \<rightharpoonup> json) \<Rightarrow> json" where
  "initial_uiState windowDefined rd JSON_parse =
     (if \<not> windowDefined then default_ui_state
      else case rd of
             Throws \<Rightarrow> default_ui_state
           | Returns None \<Rightarrow> default_ui_state
           | Returns (Some saved) \<Rightarrow>
               if saved = [] then default_ui_state
               else (case JSON_parse saved of
                       Some v \<Rightarrow> v
                     | None \<Rightarrow> default_ui_state))"

text \<open>
  \<^verbatim>\<open>const { sorts = [], ... } = uiState\<close>: reading a property with a default. The
  default stands in for a property that is not there; destructuring \<^verbatim>\<open>null\<close> throws
  a \<^verbatim>\<open>TypeError\<close>; a number, a string, a boolean or an array has none of the
  properties read here.
\<close>

datatype js_error = TypeError

definition destructure :: "json \<Rightarrow> string \<Rightarrow> json \<Rightarrow> js_error + json" where
  "destructure v name dflt =
     (case v of
        JNull \<Rightarrow> Inl TypeError
      | JObj kvs \<Rightarrow> (case map_of kvs name of Some x \<Rightarrow> Inr x | None \<Rightarrow> Inr dflt)
      | _ \<Rightarrow> Inr dflt)"

section \<open>Sample states\<close>

definition two_keys :: UIState where
  "two_keys =
     initial_view\<lparr>sorts := [\<lparr>column = ''deal'', direction = Asc\<rparr>,
                             \<lparr>column = ''owner'', direction = Desc\<rparr>]\<rparr>"

text \<open>
  Row 1 ticked; rows 1 and 2 ticked; rows 1 and 2 ticked and row 2 unticked again.
\<close>

definition one_ticked :: UIState where
  "one_ticked = handleSelectRow ''1'' initial_view"

definition two_ticked :: UIState where
  "two_ticked = handleSelectRow ''2'' one_ticked"

definition one_unticked :: UIState where
  "one_unticked = handleSelectRow ''2'' two_ticked"

text \<open>
  The seed records with row 1 ticked and expanded; the first two seed records with row 1
  ticked and row 2 ticked and unticked again.
\<close>

definition ticked_app :: AppState where
  "ticked_app = initial_app\<lparr>uiState := one_ticked\<lparr>expandedRows := [''1'']\<rparr>\<rparr>"

definition unticked_app :: AppState where
  "unticked_app =
     \<lparr>tableData = take 2 mockData, uiState = one_unticked, announcementMessage = []\<rparr>"

text \<open>
  A stored text that parses, to an object whose \<^verbatim>\<open>sorts\<close> is a number.
\<close>

definition sorts_blob :: string where
  \<open>sorts_blob = ''{"sorts":5}''\<close>

text \<open>
  A store whose identifiers of the form \<^verbatim>\<open>x-copy-t\<close> all carry a clock reading
  below \<open>now\<close>.
\<close>

definition stamps_below :: "nat \<Rightarrow> Deal list \<Rightarrow> bool" where
  "stamps_below now td =
     (\<forall>d \<in> set td. \<forall>x t. deal_id d = copy_id x t \<longrightarrow> t < now)"

section \<open>Properties of the filter\<close>







section \<open>Properties of the comparator and of the sort\<close>

lemma js_lt_irrefl: "\<not> js_lt v v"
  by (cases v) simp_all

lemma js_lt_trans: "js_lt u v \<Longrightarrow> js_lt v w \<Longrightarrow> js_lt u w"
  by (cases u; cases v; cases w) simp_all

lemma js_lt_asym: "js_lt u v \<Longrightarrow> \<not> js_lt v u"
  using js_lt_irrefl js_lt_trans by blast

lemma lower_both_field: "lower_both (field a c) (field b c) = (sort_value a c, sort_value b c)"
  by (simp add: field_def sort_value_def)

lemma sort_value_trichotomy:
  "js_lt (sort_value a c) (sort_value b c) \<or> sort_value a c = sort_value b c \<or>
   js_lt (sort_value b c) (sort_value a c)"
  by (simp add: field_def sort_value_def less_linear)

lemma key_before_irrefl: "\<not> key_before s a a"
  by (simp add: key_before_def js_lt_irrefl)



lemma key_tie_iff: "key_tie s a b \<longleftrightarrow> sort_value a (column s) = sort_value b (column s)"
  using sort_value_trichotomy [of a "column s" b] js_lt_irrefl
  by (cases "direction s") (auto simp: key_tie_def key_before_def)

lemma compare_deals_Cons:
  "compare_deals (s # ss) a b =
     (if key_before s a b then - 1 else if key_before s b a then 1 else compare_deals ss a b)"
  using js_lt_asym [of "sort_value a (column s)" "sort_value b (column s)"]
  by (cases "direction s") (auto simp: lower_both_field key_before_def)



lemma compare_deals_range: "compare_deals ss a b \<in> {- 1, 0, 1}"
  by (induction ss) (simp_all add: compare_deals_Cons del: compare_deals.simps(2))
















lemma string_key_case_insensitive:
  "field a c = Str x \<Longrightarrow> field b c = Str y \<Longrightarrow>
   key_tie \<lparr>column = c, direction = dir\<rparr> a b \<longleftrightarrow> toLowerCase x = toLowerCase y"
  by (simp add: key_tie_iff sort_value_def)





section \<open>Properties of the header click\<close>

lemma find_None_column: "find (\<lambda>s. column s = c) ss = None \<longleftrightarrow> c \<notin> column ` set ss"
  by (auto simp: find_None_iff)

lemma handleSort_absent:
  "c \<notin> column ` set (sorts ui) \<Longrightarrow>
   sorts (handleSort c ui) = sorts ui @ [\<lparr>column = c, direction = Asc\<rparr>]"
  using find_None_column [of c "sorts ui"] by (simp add: handleSort_def)

lemma handleSort_asc:
  "find (\<lambda>s. column s = c) (sorts ui) = Some e \<Longrightarrow> direction e = Asc \<Longrightarrow>
   sorts (handleSort c ui) =
     map (\<lambda>s. if column s = c then s\<lparr>direction := Desc\<rparr> else s) (sorts ui)"
  by (simp add: handleSort_def)

lemma handleSort_desc:
  "find (\<lambda>s. column s = c) (sorts ui) = Some e \<Longrightarrow> direction e = Desc \<Longrightarrow>
   sorts (handleSort c ui) = filter (\<lambda>s. column s \<noteq> c) (sorts ui)"
  by (simp add: handleSort_def)

lemma filter_others_map:
  "filter (\<lambda>s. column s \<noteq> c) (map (\<lambda>s. if column s = c then s\<lparr>direction := Desc\<rparr> else s) ss) =
   filter (\<lambda>s. column s \<noteq> c) ss"
  by (induction ss) simp_all

lemma handleSort_others:
  "filter (\<lambda>s. column s \<noteq> c) (sorts (handleSort c ui)) = filter (\<lambda>s. column s \<noteq> c) (sorts ui)"
proof (cases "find (\<lambda>s. column s = c) (sorts ui)")
  case None
  then show ?thesis by (simp add: handleSort_def)
next
  case (Some e)
  then show ?thesis
    by (cases "direction e") (simp_all add: handleSort_def filter_others_map)
qed

lemma map_column_flip:
  "column \<circ> (\<lambda>s. if column s = c then s\<lparr>direction := Desc\<rparr> else s) = column"
  by (rule ext) simp

lemma handleSort_distinct:
  assumes "distinct (map column (sorts ui))"
  shows "distinct (map column (sorts (handleSort c ui)))"
proof (cases "find (\<lambda>s. column s = c) (sorts ui)")
  case None
  then have "c \<notin> column ` set (sorts ui)" by (simp add: find_None_column)
  with assms None show ?thesis by (simp add: handleSort_def)
next
  case (Some e)
  then show ?thesis
    using assms by (cases "direction e") (simp_all add: handleSort_def map_column_flip distinct_map_filter)
qed

lemma handleSort_frame: "handleSort c ui = ui\<lparr>sorts := sorts (handleSort c ui)\<rparr>"
  by (simp add: handleSort_def Let_def)

text \<open>
  Claim C2. A click on the header of column \<open>c\<close>: when no entry of the sort
  specification names \<open>c\<close>, an ascending entry for \<open>c\<close> is appended as the last key; when
  the first entry for \<open>c\<close> is ascending, the list keeps its length and every position its
  entry, except that an entry for \<open>c\<close> is now descending; when it is descending, the
  entries for \<open>c\<close> are removed. In all three cases the entries of the other columns are
  the same, in the same order, a specification with one entry per column stays so, and no
  other part of the view state changes.
\<close>

theorem handleSort_cycle:
  "(c \<notin> column ` set (sorts ui) \<longrightarrow>
      sorts (handleSort c ui) = sorts ui @ [\<lparr>column = c, direction = Asc\<rparr>]) \<and>
   (\<forall>e. find (\<lambda>s. column s = c) (sorts ui) = Some e \<and> direction e = Asc \<longrightarrow>
      length (sorts (handleSort c ui)) = length (sorts ui) \<and>
      (\<forall>i < length (sorts ui).
         sorts (handleSort c ui) ! i =
           (if column (sorts ui ! i) = c then (sorts ui ! i)\<lparr>direction := Desc\<rparr>
            else sorts ui ! i))) \<and>
   (\<forall>e. find (\<lambda>s. column s = c) (sorts ui) = Some e \<and> direction e = Desc \<longrightarrow>
      sorts (handleSort c ui) = filter (\<lambda>s. column s \<noteq> c) (sorts ui) \<and>
      c \<notin> column ` set (sorts (handleSort c ui))) \<and>
   filter (\<lambda>s. column s \<noteq> c) (sorts (handleSort c ui)) =
     filter (\<lambda>s. column s \<noteq> c) (sorts ui) \<and>
   (distinct (map column (sorts ui)) \<longrightarrow> distinct (map column (sorts (handleSort c ui)))) \<and>
   handleSort c ui = ui\<lparr>sorts := sorts (handleSort c ui)\<rparr>"
proof -
  have asc: "length (sorts (handleSort c ui)) = length (sorts ui) \<and>
      (\<forall>i < length (sorts ui).
         sorts (handleSort c ui) ! i =
           (if column (sorts ui ! i) = c then (sorts ui ! i)\<lparr>direction := Desc\<rparr>
            else sorts ui ! i))"
    if "find (\<lambda>s. column s = c) (sorts ui) = Some e \<and> direction e = Asc" for e
    using that handleSort_asc [of c ui e] by simp
  have desc: "sorts (handleSort c ui) = filter (\<lambda>s. column s \<noteq> c) (sorts ui) \<and>
      c \<notin> column ` set (sorts (handleSort c ui))"
    if "find (\<lambda>s. column s = c) (sorts ui) = Some e \<and> direction e = Desc" for e
    using that handleSort_desc [of c ui e] by auto
  from asc desc handleSort_absent [of c ui] handleSort_others [of c ui]
    handleSort_distinct [of ui c] handleSort_frame [of c ui]
  show ?thesis by blast
qed

theorem handleSort_cycle_witness:
  "sorts (handleSort ''stage'' two_keys) =
     [\<lparr>column = ''deal'', direction = Asc\<rparr>, \<lparr>column = ''owner'', direction = Desc\<rparr>,
      \<lparr>column = ''stage'', direction = Asc\<rparr>] \<and>
   sorts (handleSort ''deal'' two_keys) ! 0 = \<lparr>column = ''deal'', direction = Desc\<rparr> \<and>
   sorts (handleSort ''deal'' two_keys) ! 1 = \<lparr>column = ''owner'', direction = Desc\<rparr> \<and>
   sorts (handleSort ''owner'' two_keys) = [\<lparr>column = ''deal'', direction = Asc\<rparr>]"
proof -
  have absent: "sorts (handleSort ''stage'' two_keys) =
     [\<lparr>column = ''deal'', direction = Asc\<rparr>, \<lparr>column = ''owner'', direction = Desc\<rparr>,
      \<lparr>column = ''stage'', direction = Asc\<rparr>]"
    using handleSort_cycle [of "''stage''" two_keys]
    by (simp add: two_keys_def initial_view_def)
  have "find (\<lambda>s. column s = ''deal'') (sorts two_keys) = Some \<lparr>column = ''deal'', direction = Asc\<rparr>"
    by (simp add: two_keys_def initial_view_def)
  then have "\<forall>i < length (sorts two_keys).
         sorts (handleSort ''deal'' two_keys) ! i =
           (if column (sorts two_keys ! i) = ''deal'' then (sorts two_keys ! i)\<lparr>direction := Desc\<rparr>
            else sorts two_keys ! i)"
    using handleSort_cycle [of "''deal''" two_keys] by simp
  then have asc: "sorts (handleSort ''deal'' two_keys) ! 0 = \<lparr>column = ''deal'', direction = Desc\<rparr> \<and>
   sorts (handleSort ''deal'' two_keys) ! 1 = \<lparr>column = ''owner'', direction = Desc\<rparr>"
    by (simp add: two_keys_def initial_view_def)
  have "find (\<lambda>s. column s = ''owner'') (sorts two_keys) = Some \<lparr>column = ''owner'', direction = Desc\<rparr>"
    by (simp add: two_keys_def initial_view_def)
  then have "sorts (handleSort ''owner'' two_keys) = filter (\<lambda>s. column s \<noteq> ''owner'') (sorts two_keys)"
    using handleSort_cycle [of "''owner''" two_keys] by simp
  then have desc: "sorts (handleSort ''owner'' two_keys) = [\<lparr>column = ''deal'', direction = Asc\<rparr>]"
    by (simp add: two_keys_def initial_view_def)
  from absent asc desc show ?thesis by simp
qed

section \<open>Properties of the select-all toggle\<close>

lemma foldl_select:
  "foldl (\<lambda>acc row. acc(deal_id row \<mapsto> True)) m rows k =
     (if k \<in> deal_id ` set rows then Some True else m k)"
  by (induction rows arbitrary: m) auto

lemma select_rows_apply:
  "select_rows rows k = (if k \<in> deal_id ` set rows then Some True else None)"
  by (simp add: select_rows_def foldl_select)

lemma select_rows_Nil: "select_rows [] = Map.empty"
  by (simp add: select_rows_def)

lemma select_rows_all: "list_all (\<lambda>row. is_selected (select_rows rows) (deal_id row)) rows"
  by (simp add: list_all_iff is_selected_def select_rows_apply)

lemma select_rows_empty_iff: "select_rows rows = Map.empty \<longleftrightarrow> rows = []"
proof
  assume e: "select_rows rows = Map.empty"
  show "rows = []"
  proof (cases rows)
    case Nil then show ?thesis .
  next
    case (Cons r rs)
    then have "select_rows rows (deal_id r) = Some True" by (simp add: select_rows_apply)
    with e show ?thesis by simp
  qed
next
  assume "rows = []"
  then show "select_rows rows = Map.empty" by (simp add: select_rows_def)
qed

lemma none_selected_empty:
  "list_all (\<lambda>row. is_selected Map.empty (deal_id row)) rows \<longleftrightarrow> rows = []"
  by (cases rows) (simp_all add: is_selected_def)

lemma handleSelectAll_selection:
  "rowSelection (handleSelectAll rows ui) =
     (if list_all (\<lambda>row. is_selected (rowSelection ui) (deal_id row)) rows then Map.empty
      else select_rows rows)"
  by (simp add: handleSelectAll_def Let_def)

lemma handleSelectAll_twice:
  "rowSelection (handleSelectAll rows (handleSelectAll rows ui)) =
     (if list_all (\<lambda>row. is_selected (rowSelection ui) (deal_id row)) rows then select_rows rows
      else Map.empty)"
proof (cases "list_all (\<lambda>row. is_selected (rowSelection ui) (deal_id row)) rows")
  case True
  then have "rowSelection (handleSelectAll rows ui) = Map.empty"
    by (simp add: handleSelectAll_selection)
  then have "rowSelection (handleSelectAll rows (handleSelectAll rows ui)) =
      (if rows = [] then Map.empty else select_rows rows)"
    by (simp add: handleSelectAll_selection [of rows "handleSelectAll rows ui"] none_selected_empty)
  with True show ?thesis by (simp add: select_rows_Nil)
next
  case False
  then have "rowSelection (handleSelectAll rows ui) = select_rows rows"
    by (simp add: handleSelectAll_selection)
  then have "rowSelection (handleSelectAll rows (handleSelectAll rows ui)) = Map.empty"
    by (simp add: handleSelectAll_selection [of rows "handleSelectAll rows ui"] select_rows_all)
  with False show ?thesis by simp
qed

lemma handleSelectAll_frame: "handleSelectAll rows ui = ui\<lparr>rowSelection := rowSelection (handleSelectAll rows ui)\<rparr>"
  by (simp add: handleSelectAll_def Let_def)

text \<open>
  Claim C3. The select-all toggle over the visible rows: when every visible row is
  selected the selection map becomes empty, so no visible row is selected any more;
  otherwise the selection map becomes the map that selects exactly the visible rows, so
  every visible row is selected. Changing or clearing the filter criteria leaves the
  selection map as it is.
\<close>

theorem handleSelectAll_toggle:
  "(list_all (\<lambda>row. is_selected (rowSelection ui) (deal_id row)) rows \<longrightarrow>
      rowSelection (handleSelectAll rows ui) = Map.empty \<and>
      (\<forall>row \<in> set rows. \<not> is_selected (rowSelection (handleSelectAll rows ui)) (deal_id row))) \<and>
   (\<not> list_all (\<lambda>row. is_selected (rowSelection ui) (deal_id row)) rows \<longrightarrow>
      rowSelection (handleSelectAll rows ui) = select_rows rows \<and>
      (\<forall>row \<in> set rows. is_selected (rowSelection (handleSelectAll rows ui)) (deal_id row))) \<and>
   rowSelection (onFiltersChange newFilters ui) = rowSelection ui \<and>
   rowSelection (onClearFilters ui) = rowSelection ui"
  by (simp add: handleSelectAll_selection onFiltersChange_def onClearFilters_def
      is_selected_def select_rows_apply)

theorem handleSelectAll_toggle_witness:
  "is_selected (rowSelection (handleSelectAll (take 2 mockData) one_ticked)) ''2'' \<and>
   rowSelection (handleSelectAll (take 2 mockData) two_ticked) = Map.empty"
proof -
  have some: "\<not> list_all (\<lambda>row. is_selected (rowSelection one_ticked) (deal_id row))
      (take 2 mockData)"
    by (simp add: one_ticked_def handleSelectRow_def initial_view_def mockData_def
        is_selected_def)
  have "\<forall>row \<in> set (take 2 mockData).
      is_selected (rowSelection (handleSelectAll (take 2 mockData) one_ticked)) (deal_id row)"
    using handleSelectAll_toggle [of one_ticked "take 2 mockData"] some by blast
  then have first: "is_selected (rowSelection (handleSelectAll (take 2 mockData) one_ticked)) ''2''"
    by (simp add: mockData_def)
  have every: "list_all (\<lambda>row. is_selected (rowSelection two_ticked) (deal_id row))
      (take 2 mockData)"
    by (simp add: two_ticked_def one_ticked_def handleSelectRow_def initial_view_def
        mockData_def is_selected_def)
  have second: "rowSelection (handleSelectAll (take 2 mockData) two_ticked) = Map.empty"
    using handleSelectAll_toggle [of two_ticked "take 2 mockData"] every by blast
  from first second show ?thesis by (rule conjI)
qed

text \<open>
  Claim C4, as stated, fails: with row 1 selected and rows 1 and 2 visible, the first click
  selects both rows and the second clears the map, which is not the map that selected
  row 1.
\<close>

theorem handleSelectAll_twice_counterexample:
  "rowSelection (handleSelectAll (take 2 mockData) (handleSelectAll (take 2 mockData) one_ticked))
     \<noteq> rowSelection one_ticked"
proof -
  have "\<not> list_all (\<lambda>row. is_selected (rowSelection one_ticked) (deal_id row)) (take 2 mockData)"
    by (simp add: one_ticked_def handleSelectRow_def initial_view_def mockData_def
        is_selected_def)
  then have "rowSelection (handleSelectAll (take 2 mockData)
      (handleSelectAll (take 2 mockData) one_ticked)) = Map.empty"
    by (simp add: handleSelectAll_twice)
  moreover have "rowSelection one_ticked \<noteq> Map.empty"
    by (simp add: one_ticked_def handleSelectRow_def)
  ultimately show ?thesis by simp
qed

text \<open>
  Claim C4, amended. Two clicks on the select-all toggle with the same visible rows give
  back the selection map they started from exactly when that map was empty or was the map
  that selects exactly the visible rows. From any selection map, the state after the first
  click comes back after two further clicks.
\<close>

theorem handleSelectAll_twice_iff:
  "(rowSelection (handleSelectAll rows (handleSelectAll rows ui)) = rowSelection ui \<longleftrightarrow>
      rowSelection ui = Map.empty \<or> rowSelection ui = select_rows rows) \<and>
   handleSelectAll rows (handleSelectAll rows (handleSelectAll rows ui)) = handleSelectAll rows ui"
proof -
  let ?all = "list_all (\<lambda>row. is_selected (rowSelection ui) (deal_id row)) rows"
  have first: "rowSelection (handleSelectAll rows (handleSelectAll rows ui)) = rowSelection ui \<longleftrightarrow>
      rowSelection ui = Map.empty \<or> rowSelection ui = select_rows rows"
  proof (cases ?all)
    case True
    have "rowSelection ui = Map.empty \<Longrightarrow> rowSelection ui = select_rows rows"
      using True by (simp add: none_selected_empty select_rows_Nil)
    with True show ?thesis by (auto simp: handleSelectAll_twice)
  next
    case False
    have "rowSelection ui \<noteq> select_rows rows"
      using False select_rows_all [of rows] by auto
    with False show ?thesis by (auto simp: handleSelectAll_twice)
  qed
  have sel3: "rowSelection (handleSelectAll rows (handleSelectAll rows (handleSelectAll rows ui))) =
      rowSelection (handleSelectAll rows ui)"
    by (simp add: handleSelectAll_twice [of rows "handleSelectAll rows ui"]
        handleSelectAll_selection [of rows ui] select_rows_all none_selected_empty select_rows_empty_iff)
  have "handleSelectAll rows (handleSelectAll rows (handleSelectAll rows ui)) =
      ui\<lparr>rowSelection := rowSelection (handleSelectAll rows (handleSelectAll rows (handleSelectAll rows ui)))\<rparr>"
    by (simp add: handleSelectAll_def Let_def)
  also have "\<dots> = handleSelectAll rows ui"
    by (simp only: sel3 handleSelectAll_frame [symmetric])
  finally show ?thesis using first by simp
qed

theorem handleSelectAll_twice_iff_witness:
  "rowSelection (handleSelectAll (take 2 mockData) (handleSelectAll (take 2 mockData) initial_view)) =
     rowSelection initial_view"
  using handleSelectAll_twice_iff [of "take 2 mockData" initial_view]
  by (simp add: initial_view_def)

section \<open>Properties of the totals\<close>

lemma foldl_add_dealValue:
  "foldl (\<lambda>sum d. sum + dealValue d) acc rows = acc + sum_list (map dealValue rows)"
  by (induction rows arbitrary: acc) simp_all

lemma foldl_tally:
  "foldl (\<lambda>acc d. tally acc (key d)) m rows k =
     (if filter (\<lambda>d. key d = k) rows = [] then m k
      else Some ((case m k of None \<Rightarrow> 0 | Some c \<Rightarrow> c) + length (filter (\<lambda>d. key d = k) rows)))"
  by (induction rows arbitrary: m) (simp_all add: tally_def)

lemma stageBreakdown_apply:
  "stageBreakdown (totals rows td sel) k =
     (if filter (\<lambda>d. stage d = k) rows = [] then None
      else Some (length (filter (\<lambda>d. stage d = k) rows)))"
  by (simp add: totals_def Let_def foldl_tally)

lemma averageDealValue_eq:
  "averageDealValue (totals rows td sel) =
     (if length rows = 0 then 0 else sum_list (map dealValue rows) / real (length rows))"
  by (simp add: totals_def Let_def foldl_add_dealValue)

lemma conversionRate_eq:
  "conversionRate (totals rows td sel) =
     (if length rows = 0 then 0
      else real (length (filter (\<lambda>d. stage d = ''Closed Won'') rows)) / real (length rows) * 100)"
proof -
  have "conversionRate (totals rows td sel) =
      (case stageBreakdown (totals rows td sel) ''Closed Won'' of
         None \<Rightarrow> 0
       | Some c \<Rightarrow> if c \<noteq> 0 then (real c / real (length rows)) * 100 else 0)"
    by (simp add: totals_def Let_def)
  then show ?thesis
    by (cases rows) (simp_all add: stageBreakdown_apply)
qed

lemma mock_conversion: "conversionRate (totals mockData mockData Map.empty) = 20"
  by (simp add: conversionRate_eq mockData_def)

text \<open>
  Claim C8. For every list of visible rows the totals give, as the average deal value, the
  sum of the rows' deal values divided by the number of rows, and 0 for no row; and, as
  the conversion rate, the number of rows in stage Closed Won divided by the number of
  rows, times 100, and 0 for no row. The five seed records hold one Closed Won deal, and
  their conversion rate is 20.
\<close>

theorem totals_average_and_conversion:
  "averageDealValue (totals rows td sel) =
     (if length rows = 0 then 0 else sum_list (map dealValue rows) / real (length rows)) \<and>
   conversionRate (totals rows td sel) =
     (if length rows = 0 then 0
      else real (length (filter (\<lambda>d. stage d = ''Closed Won'') rows)) / real (length rows) * 100) \<and>
   visible_rows (totals rows td sel) = length rows \<and>
   dealValueSum (totals rows td sel) = sum_list (map dealValue rows) \<and>
   length (filter (\<lambda>d. stage d = ''Closed Won'') mockData) = 1 \<and> length mockData = 5 \<and>
   conversionRate (totals mockData mockData Map.empty) = 20"
  using averageDealValue_eq [of rows td sel] conversionRate_eq [of rows td sel] mock_conversion
  by (simp add: totals_def Let_def foldl_add_dealValue mockData_def)

theorem totals_average_and_conversion_witness:
  "averageDealValue (totals (sortedData mockData (range_only 0 200000) []) mockData Map.empty) = 83000 \<and>
   averageDealValue (totals [] mockData Map.empty) = 0 \<and>
   conversionRate (totals [] mockData Map.empty) = 0"
  using totals_average_and_conversion [of "sortedData mockData (range_only 0 200000) []" mockData Map.empty]
    totals_average_and_conversion [of "[]" mockData Map.empty]
  by (simp add: sortedData_def filteredData_def deal_passes_def range_only_def mockData_def)

section \<open>Properties of the delete actions\<close>

text \<open>
  Claim C10. The row action delete keeps exactly the records whose identifier differs from
  the given one, in their order, and leaves the view state as it is: the selection entry of
  the deleted identifier and its membership in the expanded rows are what they were. The
  bulk delete empties the selection map.
\<close>

theorem row_delete_frame:
  "tableData (handleRowAction Delete dealId val now st) =
     filter (\<lambda>d. deal_id d \<noteq> dealId) (tableData st) \<and>
   (\<forall>d. d \<in> set (tableData (handleRowAction Delete dealId val now st)) \<longleftrightarrow>
        d \<in> set (tableData st) \<and> deal_id d \<noteq> dealId) \<and>
   uiState (handleRowAction Delete dealId val now st) = uiState st \<and>
   rowSelection (uiState (handleRowAction Delete dealId val now st)) dealId =
     rowSelection (uiState st) dealId \<and>
   (dealId \<in> set (expandedRows (uiState (handleRowAction Delete dealId val now st))) \<longleftrightarrow>
      dealId \<in> set (expandedRows (uiState st))) \<and>
   rowSelection (uiState (handleBulkAction BulkDelete val st)) = Map.empty"
  by (simp add: handleRowAction_def handleBulkAction_def Let_def)

theorem row_delete_frame_witness:
  "map deal_id (tableData (handleRowAction Delete ''1'' None 0 ticked_app)) =
     [''2'', ''3'', ''4'', ''5''] \<and>
   rowSelection (uiState (handleRowAction Delete ''1'' None 0 ticked_app)) ''1'' = Some True \<and>
   ''1'' \<in> set (expandedRows (uiState (handleRowAction Delete ''1'' None 0 ticked_app)))"
  using row_delete_frame [of "''1''" None 0 ticked_app]
  by (simp add: ticked_app_def initial_app_def one_ticked_def handleSelectRow_def
      initial_view_def mockData_def is_selected_def)

lemma one_unticked_selection: "rowSelection one_unticked = [''1'' \<mapsto> True, ''2'' \<mapsto> False]"
  by (simp add: one_unticked_def two_ticked_def one_ticked_def handleSelectRow_def
      initial_view_def is_selected_def)

lemma selected_count_unticked: "selected_count (rowSelection one_unticked) = 1"
proof -
  have "{rid \<in> dom [''1'' \<mapsto> True, ''2'' \<mapsto> False].
          is_selected [''1'' \<mapsto> True, ''2'' \<mapsto> False] rid} = {''1''}"
    by (auto simp: is_selected_def split: if_splits)
  then show ?thesis
    by (simp add: selected_count_def one_unticked_selection)
qed

text \<open>
  When every key of the selection map names exactly one record, the bulk delete shortens
  the store by the number of keys.
\<close>

lemma bulk_delete_length:
  assumes "distinct (map deal_id (tableData st))"
    and "dom (rowSelection (uiState st)) \<subseteq> deal_id ` set (tableData st)"
  shows "length (tableData (handleBulkAction BulkDelete val st)) +
      card (dom (rowSelection (uiState st))) = length (tableData st)"
proof -
  let ?S = "dom (rowSelection (uiState st))"
  let ?ids = "map deal_id (tableData st)"
  have "length (filter (\<lambda>d. deal_id d \<in> ?S) (tableData st)) =
      length (filter (\<lambda>i. i \<in> ?S) ?ids)"
    by (simp add: filter_map comp_def)
  also have "\<dots> = card ({i. i \<in> ?S} \<inter> set ?ids)"
    using assms(1) by (rule distinct_length_filter)
  also have "{i. i \<in> ?S} \<inter> set ?ids = ?S"
    using assms(2) by auto
  finally have hit: "length (filter (\<lambda>d. deal_id d \<in> ?S) (tableData st)) = card ?S" .
  have "length (filter (\<lambda>d. deal_id d \<in> ?S) (tableData st)) +
      length (filter (\<lambda>d. \<not> deal_id d \<in> ?S) (tableData st)) = length (tableData st)"
    by (rule sum_length_filter_compl)
  with hit show ?thesis
    by (simp add: handleBulkAction_def Let_def)
qed

text \<open>
  Claim C5 at a store of the seed records 1 and 2 where row 1 is ticked and row 2 was
  ticked and unticked again: one row is selected, as the selection bar counts it, yet the
  bulk delete removes both records and announces two deleted deals.
\<close>

theorem bulk_delete_removes_unticked_row:
  "selected_count (rowSelection (uiState unticked_app)) = 1 \<and>
   map deal_id (tableData unticked_app) = [''1'', ''2''] \<and>
   tableData (handleBulkAction BulkDelete None unticked_app) = [] \<and>
   announcementMessage (handleBulkAction BulkDelete None unticked_app) = ''Deleted 2 deals''"
  using selected_count_unticked
  by (simp add: unticked_app_def handleBulkAction_def Let_def one_unticked_selection
      mockData_def count_deals_def digit_char_def show_nat.simps)

section \<open>Properties of the duplicate action\<close>

lemma digit_char_inj: "i < 10 \<Longrightarrow> j < 10 \<Longrightarrow> digit_char i = digit_char j \<longleftrightarrow> i = j"
  unfolding digit_char_def by (subst nth_eq_iff_index_eq) simp_all

lemma digit_char_not_dash: "i < 10 \<Longrightarrow> digit_char i \<noteq> CHR ''-''"
proof -
  assume "i < 10"
  then have "digit_char i \<in> set ''0123456789''"
    unfolding digit_char_def by (intro nth_mem) simp
  then show ?thesis by auto
qed

lemma show_nat_nonempty: "show_nat n \<noteq> []"
  by (subst show_nat.simps) simp

lemma show_nat_no_dash: "CHR ''-'' \<notin> set (show_nat n)"
proof (induction n rule: show_nat.induct)
  case (1 n)
  show ?case
  proof (cases "n < 10")
    case True
    then show ?thesis using digit_char_not_dash [of n] by (subst show_nat.simps) auto
  next
    case False
    then show ?thesis
      using 1 digit_char_not_dash [of "n mod 10"] by (subst show_nat.simps) auto
  qed
qed

lemma show_nat_inj: "show_nat m = show_nat n \<Longrightarrow> m = n"
proof (induction m arbitrary: n rule: show_nat.induct)
  case (1 m)
  show ?case
  proof (cases "m < 10")
    case small_m: True
    then have m: "show_nat m = [digit_char m]"
      by (subst show_nat.simps) simp
    show ?thesis
    proof (cases "n < 10")
      case True
      then have "show_nat n = [digit_char n]"
        by (subst show_nat.simps) simp
      with m small_m True "1.prems" show ?thesis
        by (simp add: digit_char_inj)
    next
      case False
      then have "show_nat n = show_nat (n div 10) @ [digit_char (n mod 10)]"
        by (subst show_nat.simps) simp
      with m show ?thesis
        using "1.prems" show_nat_nonempty [of "n div 10"] by simp
    qed
  next
    case big_m: False
    then have m: "show_nat m = show_nat (m div 10) @ [digit_char (m mod 10)]"
      by (subst show_nat.simps) simp
    show ?thesis
    proof (cases "n < 10")
      case True
      then have "show_nat n = [digit_char n]"
        by (subst show_nat.simps) simp
      then show ?thesis
        using "1.prems" m show_nat_nonempty [of "m div 10"] by simp
    next
      case False
      then have "show_nat n = show_nat (n div 10) @ [digit_char (n mod 10)]"
        by (subst show_nat.simps) simp
      with m "1.prems" have hi: "show_nat (m div 10) = show_nat (n div 10)"
        and lo: "digit_char (m mod 10) = digit_char (n mod 10)"
        by simp_all
      from "1.IH" [OF big_m hi] have dv: "m div 10 = n div 10" .
      from lo have md: "m mod 10 = n mod 10"
        by (simp add: digit_char_inj)
      have "m = m div 10 * 10 + m mod 10" by simp
      also have "\<dots> = n div 10 * 10 + n mod 10" by (simp only: dv md)
      also have "\<dots> = n" by simp
      finally show ?thesis .
    qed
  qed
qed

lemma after_last_dash:
  assumes "xs @ CHR ''-'' # ds = ys @ CHR ''-'' # es"
    and "CHR ''-'' \<notin> set ds" and "CHR ''-'' \<notin> set es"
  shows "ds = es \<and> xs = ys"
proof -
  have "rev (xs @ CHR ''-'' # ds) = rev (ys @ CHR ''-'' # es)"
    using assms(1) by (rule arg_cong)
  then have "rev ds @ CHR ''-'' # rev xs = rev es @ CHR ''-'' # rev ys"
    by simp
  then have "takeWhile (\<lambda>c. c \<noteq> CHR ''-'') (rev ds @ CHR ''-'' # rev xs) =
      takeWhile (\<lambda>c. c \<noteq> CHR ''-'') (rev es @ CHR ''-'' # rev ys)"
    by simp
  moreover have "takeWhile (\<lambda>c. c \<noteq> CHR ''-'') (rev ds @ CHR ''-'' # rev xs) = rev ds"
    using assms(2) by (auto simp: takeWhile_tail)
  moreover have "takeWhile (\<lambda>c. c \<noteq> CHR ''-'') (rev es @ CHR ''-'' # rev ys) = rev es"
    using assms(3) by (auto simp: takeWhile_tail)
  ultimately have "ds = es" by simp
  with assms(1) show ?thesis by simp
qed

lemma copy_id_inject: "copy_id x t = copy_id y u \<Longrightarrow> t = u \<and> x = y"
proof -
  assume "copy_id x t = copy_id y u"
  then have "(x @ ''-copy'') @ CHR ''-'' # show_nat t = (y @ ''-copy'') @ CHR ''-'' # show_nat u"
    by (simp add: copy_id_def)
  then have "show_nat t = show_nat u \<and> x @ ''-copy'' = y @ ''-copy''"
    by (rule after_last_dash) (rule show_nat_no_dash)+
  then show ?thesis
    using show_nat_inj by simp
qed

lemma copy_id_longer: "length (copy_id x t) > length x + 6"
  using show_nat_nonempty [of t] by (simp add: copy_id_def)

lemma stamps_below_mockData: "stamps_below now mockData"
proof -
  have "i \<noteq> copy_id x t" if "length i = 1" for i x t
    using that copy_id_longer [of x t] by auto
  then show ?thesis
    by (simp add: stamps_below_def mockData_def)
qed

lemma find_deal_Some:
  "dealId \<in> deal_id ` set td \<Longrightarrow>
   \<exists>orig. find (\<lambda>d. deal_id d = dealId) td = Some orig \<and> orig \<in> set td \<and> deal_id orig = dealId"
  by (cases "find (\<lambda>d. deal_id d = dealId) td") (auto simp: find_None_iff find_Some_iff)

lemma duplicate_tableData:
  "find (\<lambda>d. deal_id d = dealId) (tableData st) = Some orig \<Longrightarrow>
   tableData (handleRowAction Duplicate dealId val now st) =
     tableData st @ [orig\<lparr>deal_id := copy_id dealId now, deal := deal orig @ '' (Copy)''\<rparr>]"
  by (simp add: handleRowAction_def)

lemma stamps_below_fresh:
  assumes "stamps_below now td"
  shows "copy_id dealId now \<notin> deal_id ` set td"
proof
  assume "copy_id dealId now \<in> deal_id ` set td"
  then obtain d where "d \<in> set td" and "deal_id d = copy_id dealId now"
    by auto
  with assms have "now < now"
    unfolding stamps_below_def by blast
  then show False by simp
qed

lemma stamps_below_append:
  assumes "stamps_below now td"
  shows "stamps_below (Suc now) (td @ [orig\<lparr>deal_id := copy_id dealId now, deal := title\<rparr>])"
  using assms copy_id_inject [of dealId now]
  by (fastforce simp: stamps_below_def)

text \<open>
  Claim C6, amended. Duplicating an identifier of the store appends one record: the first
  record with that identifier, with \<^verbatim>\<open>(Copy)\<close> after a space at the end of its title,
  under the identifier made of the source identifier, \<^verbatim>\<open>-copy-\<close> and the clock's
  reading. The store grows by one. When the identifiers of the store are distinct and
  every identifier of that form in it carries a reading below the clock's, the identifiers
  are distinct afterwards too, and the same holds of the new store for any later reading;
  so identifiers stay unique under repeated duplication as long as the clock advances
  between two duplications. Two readings give the same identifier for one source only when
  they are equal.
\<close>

theorem duplicate_appends_copy:
  "(dealId \<in> deal_id ` set (tableData st) \<longrightarrow>
      (\<exists>orig. find (\<lambda>d. deal_id d = dealId) (tableData st) = Some orig \<and>
         orig \<in> set (tableData st) \<and> deal_id orig = dealId \<and>
         tableData (handleRowAction Duplicate dealId val now st) =
           tableData st @
           [orig\<lparr>deal_id := copy_id dealId now, deal := deal orig @ '' (Copy)''\<rparr>]) \<and>
      length (tableData (handleRowAction Duplicate dealId val now st)) =
        length (tableData st) + 1 \<and>
      (distinct (map deal_id (tableData st)) \<and> stamps_below now (tableData st) \<longrightarrow>
         distinct (map deal_id (tableData (handleRowAction Duplicate dealId val now st))) \<and>
         stamps_below (Suc now) (tableData (handleRowAction Duplicate dealId val now st)))) \<and>
   (\<forall>t. copy_id dealId t = copy_id dealId now \<longleftrightarrow> t = now)"
proof -
  have stamp: "\<forall>t. copy_id dealId t = copy_id dealId now \<longleftrightarrow> t = now"
    using copy_id_inject by blast
  have main: "(\<exists>orig. find (\<lambda>d. deal_id d = dealId) (tableData st) = Some orig \<and>
         orig \<in> set (tableData st) \<and> deal_id orig = dealId \<and>
         tableData (handleRowAction Duplicate dealId val now st) =
           tableData st @
           [orig\<lparr>deal_id := copy_id dealId now, deal := deal orig @ '' (Copy)''\<rparr>]) \<and>
      length (tableData (handleRowAction Duplicate dealId val now st)) =
        length (tableData st) + 1 \<and>
      (distinct (map deal_id (tableData st)) \<and> stamps_below now (tableData st) \<longrightarrow>
         distinct (map deal_id (tableData (handleRowAction Duplicate dealId val now st))) \<and>
         stamps_below (Suc now) (tableData (handleRowAction Duplicate dealId val now st)))"
    if "dealId \<in> deal_id ` set (tableData st)"
  proof -
    from that obtain orig where
      f: "find (\<lambda>d. deal_id d = dealId) (tableData st) = Some orig"
      and m: "orig \<in> set (tableData st)" and i: "deal_id orig = dealId"
      using find_deal_Some by blast
    have td: "tableData (handleRowAction Duplicate dealId val now st) =
        tableData st @ [orig\<lparr>deal_id := copy_id dealId now, deal := deal orig @ '' (Copy)''\<rparr>]"
      using f by (rule duplicate_tableData)
    have len: "length (tableData (handleRowAction Duplicate dealId val now st)) =
        length (tableData st) + 1"
      by (simp add: td)
    have uniq: "distinct (map deal_id (tableData (handleRowAction Duplicate dealId val now st))) \<and>
         stamps_below (Suc now) (tableData (handleRowAction Duplicate dealId val now st))"
      if "distinct (map deal_id (tableData st)) \<and> stamps_below now (tableData st)"
      using that stamps_below_fresh [of now "tableData st" dealId]
        stamps_below_append [where now = now and td = "tableData st" and orig = orig
          and dealId = dealId and title = "deal orig @ '' (Copy)''"]
      by (simp add: td)
    from f m i td len uniq show ?thesis by blast
  qed
  from stamp main show ?thesis by blast
qed

theorem duplicate_appends_copy_witness:
  "length (tableData (handleRowAction Duplicate ''1'' None 1700 initial_app)) = 6 \<and>
   distinct (map deal_id (tableData (handleRowAction Duplicate ''1'' None 1700 initial_app))) \<and>
   distinct (map deal_id (tableData (handleRowAction Duplicate ''1'' None 1701
      (handleRowAction Duplicate ''1'' None 1700 initial_app))))"
proof -
  let ?st1 = "handleRowAction Duplicate ''1'' None 1700 initial_app"
  have ex: "''1'' \<in> deal_id ` set (tableData initial_app)"
    by (simp add: initial_app_def mockData_def)
  have d0: "distinct (map deal_id (tableData initial_app))"
    by (simp add: initial_app_def mockData_def)
  have s0: "stamps_below 1700 (tableData initial_app)"
    by (simp add: initial_app_def stamps_below_mockData)
  have len: "length (tableData ?st1) = length (tableData initial_app) + 1"
    and d1: "distinct (map deal_id (tableData ?st1))"
    and s1: "stamps_below (Suc 1700) (tableData ?st1)"
    using duplicate_appends_copy [of "''1''" initial_app None 1700] ex d0 s0 by blast+
  have ex1: "''1'' \<in> deal_id ` set (tableData ?st1)"
    by (simp add: handleRowAction_def initial_app_def mockData_def)
  have "distinct (map deal_id (tableData (handleRowAction Duplicate ''1'' None (Suc 1700) ?st1)))"
    using duplicate_appends_copy [of "''1''" ?st1 None "Suc 1700"] ex1 d1 s1 by blast
  then have d2: "distinct (map deal_id (tableData (handleRowAction Duplicate ''1'' None 1701 ?st1)))"
    by simp
  have "length (tableData ?st1) = 6"
    using len by (simp add: initial_app_def mockData_def)
  with d1 d2 show ?thesis by simp
qed

text \<open>
  Claim C6, as stated, fails: two duplications of record 1 at one and the same clock
  reading leave two records with the same identifier in the store.
\<close>

theorem duplicate_same_reading_counterexample:
  "\<not> distinct (map deal_id (tableData (handleRowAction Duplicate ''1'' None 1700
      (handleRowAction Duplicate ''1'' None 1700 initial_app))))"
  by (simp add: handleRowAction_def initial_app_def mockData_def)

section \<open>Properties of the initializer\<close>

lemma initial_uiState_default:
  "\<not> windowDefined \<or> rd = Throws \<or> rd = Returns None \<or> rd = Returns (Some []) \<or>
   (\<exists>saved. rd = Returns (Some saved) \<and> JSON_parse saved = None) \<Longrightarrow>
   initial_uiState windowDefined rd JSON_parse = default_ui_state"
  by (auto simp: initial_uiState_def)

lemma initial_uiState_parsed:
  "windowDefined \<Longrightarrow> saved \<noteq> [] \<Longrightarrow> JSON_parse saved = Some v \<Longrightarrow>
   initial_uiState windowDefined (Returns (Some saved)) JSON_parse = v"
  by (simp add: initial_uiState_def)

lemma default_fields:
  "destructure default_ui_state ''sorts'' (JArr []) = Inr (JArr [])"
  "destructure default_ui_state ''filters'' dflt =
     Inr (JObj [(''search'', JStr []), (''stage'', JArr []), (''owner'', JArr []),
                (''dealValueRange'', JArr [JNum 0, JNum 200000])])"
  by (simp_all add: destructure_def default_ui_state_def)

text \<open>
  Claim C9, amended. The initializer returns the default view state (no sorts, no filter,
  value range 0 to 200000) when there is no window, when reading the storage throws, when
  nothing or the empty text is stored, and when the stored text does not parse. A stored
  text that parses is returned as the state, as parsed and unchecked.
\<close>

theorem initial_uiState_fallback:
  "(\<not> windowDefined \<or> rd = Throws \<or> rd = Returns None \<or> rd = Returns (Some []) \<or>
    (\<exists>saved. rd = Returns (Some saved) \<and> JSON_parse saved = None) \<longrightarrow>
      initial_uiState windowDefined rd JSON_parse = default_ui_state) \<and>
   (\<forall>saved v. windowDefined \<and> saved \<noteq> [] \<and> JSON_parse saved = Some v \<longrightarrow>
      initial_uiState windowDefined (Returns (Some saved)) JSON_parse = v) \<and>
   destructure default_ui_state ''sorts'' (JArr []) = Inr (JArr []) \<and>
   destructure default_ui_state ''filters'' JNull =
     Inr (JObj [(''search'', JStr []), (''stage'', JArr []), (''owner'', JArr []),
                (''dealValueRange'', JArr [JNum 0, JNum 200000])])"
  using initial_uiState_default [of windowDefined rd JSON_parse]
    initial_uiState_parsed [of windowDefined _ JSON_parse] default_fields
  by blast

theorem initial_uiState_fallback_witness:
  "initial_uiState True (Returns None) Map.empty = default_ui_state \<and>
   initial_uiState True (Returns (Some ''{broken'')) Map.empty = default_ui_state \<and>
   initial_uiState True (Returns (Some ''null'')) [''null'' \<mapsto> JNull] = JNull"
  using initial_uiState_fallback [of True "Returns None" Map.empty]
    initial_uiState_fallback [of True "Returns (Some ''{broken'')" Map.empty]
    initial_uiState_fallback [of True _ "[''null'' \<mapsto> JNull]"]
  by simp

text \<open>
  Claim C9, as stated, fails: a stored object whose \<^verbatim>\<open>sorts\<close> is the number 5 becomes
  the state, not the default, and its sorts read as 5; a stored \<^verbatim>\<open>null\<close> becomes the
  state too, and reading the view state from it throws.
\<close>

theorem initial_uiState_shape_counterexample:
  \<open>initial_uiState True (Returns (Some sorts_blob)) [sorts_blob \<mapsto> JObj [(''sorts'', JNum 5)]]
     \<noteq> default_ui_state \<and>
   destructure
     (initial_uiState True (Returns (Some sorts_blob)) [sorts_blob \<mapsto> JObj [(''sorts'', JNum 5)]])
     ''sorts'' (JArr []) = Inr (JNum 5) \<and>
   destructure (initial_uiState True (Returns (Some ''null'')) [''null'' \<mapsto> JNull])
     ''sorts'' (JArr []) = Inl TypeError\<close>
  by (simp add: initial_uiState_def sorts_blob_def destructure_def default_ui_state_def)

end
